theory Spec2Isabelle
  imports Main
begin

section \<open>Python values used by \<open>lib/ansible/errors/__init__.py\<close>\<close>

text \<open>
  The development embeds \<open>AnsibleError._get_error_lines_from_file\<close> and
  \<open>AnsibleError._get_extended_error\<close>. Python text is modelled as \<^typ>\<open>string\<close>, so a
  character is a code point between 0 and 255; the character classes below are Python's on
  that range. A leading underscore is not part of an Isabelle name, so the two methods are
  called \<open>get_error_lines_from_file\<close> and \<open>get_extended_error\<close>.
\<close>

text \<open>The exceptions that can arise inside the two methods.\<close>

datatype exn = IOError | TypeError | IndexError | ValueError

text \<open>\<open>xs[i]\<close>: a negative index counts from the end; outside \<open>-len \<dots> len-1\<close> it raises.\<close>

definition py_getitem :: "'a list \<Rightarrow> int \<Rightarrow> exn + 'a" where
  "py_getitem xs i =
     (if 0 \<le> i \<and> i < int (length xs) then Inr (xs ! nat i)
      else if i < 0 \<and> - int (length xs) \<le> i then Inr (xs ! nat (int (length xs) + i))
      else Inl IndexError)"

text \<open>\<open>str.isspace\<close> for one character; it is also the class \<open>\s\<close> of \<open>re\<close>.\<close>

definition isspace :: "char \<Rightarrow> bool" where
  "isspace c =
     (let n = (of_char c :: nat)
      in (9 \<le> n \<and> n \<le> 13) \<or> (28 \<le> n \<and> n \<le> 32) \<or> n = 133 \<or> n = 160)"

text \<open>The class \<open>\w\<close> of \<open>re\<close>: alphanumeric characters and the underscore.\<close>

definition isword :: "char \<Rightarrow> bool" where
  "isword c =
     (let n = (of_char c :: nat)
      in (48 \<le> n \<and> n \<le> 57) \<or> (65 \<le> n \<and> n \<le> 90) \<or> n = 95 \<or> (97 \<le> n \<and> n \<le> 122)
         \<or> n = 170 \<or> n = 178 \<or> n = 179 \<or> n = 181 \<or> n = 185 \<or> n = 186
         \<or> (188 \<le> n \<and> n \<le> 190) \<or> (192 \<le> n \<and> n \<le> 214) \<or> (216 \<le> n \<and> n \<le> 246)
         \<or> 248 \<le> n)"

text \<open>\<open>s.rstrip()\<close> and \<open>s.strip()\<close>.\<close>

definition rstrip :: "string \<Rightarrow> string" where
  "rstrip s = rev (dropWhile isspace (rev s))"

definition strip :: "string \<Rightarrow> string" where
  "strip s = dropWhile isspace (rstrip s)"

text \<open>\<open>s.startswith(p)\<close>, \<open>s.endswith(p)\<close> and \<open>p in s\<close>.\<close>

definition startswith :: "string \<Rightarrow> string \<Rightarrow> bool" where
  "startswith s p = (take (length p) s = p)"

definition endswith :: "string \<Rightarrow> string \<Rightarrow> bool" where
  "endswith s p = startswith (rev s) (rev p)"

fun contains :: "string \<Rightarrow> string \<Rightarrow> bool" where
  "contains p [] = (p = [])"
| "contains p (c # cs) = (startswith (c # cs) p \<or> contains p cs)"

text \<open>\<open>s.find(c)\<close> for a single character: the first position of \<open>c\<close>, or \<open>-1\<close>.\<close>

fun str_find :: "string \<Rightarrow> char \<Rightarrow> int" where
  "str_find [] c = - 1"
| "str_find (x # xs) c =
     (if x = c then 0 else (let r = str_find xs c in if r < 0 then - 1 else r + 1))"

text \<open>\<open>s.count(c)\<close> and \<open>s.split(c)\<close> for a single character.\<close>

definition str_count :: "string \<Rightarrow> char \<Rightarrow> nat" where
  "str_count s c = length (filter (\<lambda>x. x = c) s)"

fun str_split :: "string \<Rightarrow> char \<Rightarrow> string list" where
  "str_split [] c = [[]]"
| "str_split (x # xs) c =
     (if x = c then [] # str_split xs c
      else (case str_split xs c of [] \<Rightarrow> [[x]] | p # ps \<Rightarrow> (x # p) # ps))"

subsection \<open>Regular expressions\<close>

text \<open>
  The fragment of \<open>re\<close> that the pattern of the shorthand check needs. \<open>re_match\<close> says
  whether some prefix of the text matches, \<open>re_search\<close> whether a match starts anywhere
  in the text; the code only tests the result of \<open>re.search\<close> for truth.
\<close>

datatype regex =
    Fail
  | Eps
  | Class "char \<Rightarrow> bool"
  | Seq regex regex
  | Alt regex regex
  | Star regex

definition Plus :: "regex \<Rightarrow> regex" where
  "Plus r = Seq r (Star r)"

definition Opt :: "regex \<Rightarrow> regex" where
  "Opt r = Alt r Eps"

fun nullable :: "regex \<Rightarrow> bool" where
  "nullable Fail = False"
| "nullable Eps = True"
| "nullable (Class P) = False"
| "nullable (Seq r s) = (nullable r \<and> nullable s)"
| "nullable (Alt r s) = (nullable r \<or> nullable s)"
| "nullable (Star r) = True"

text \<open>
  \<open>seq\<close> and \<open>alt\<close> build a sequence and an alternative of the same words, dropping
  the parts that can match nothing; they keep the derivative small.
\<close>

fun seq :: "regex \<Rightarrow> regex \<Rightarrow> regex" where
  "seq Fail s = Fail"
| "seq Eps s = s"
| "seq r s = Seq r s"

fun alt :: "regex \<Rightarrow> regex \<Rightarrow> regex" where
  "alt Fail s = s"
| "alt r Fail = r"
| "alt r s = Alt r s"

fun deriv :: "char \<Rightarrow> regex \<Rightarrow> regex" where
  "deriv c Fail = Fail"
| "deriv c Eps = Fail"
| "deriv c (Class P) = (if P c then Eps else Fail)"
| "deriv c (Seq r s) =
     (if nullable r then alt (seq (deriv c r) s) (deriv c s) else seq (deriv c r) s)"
| "deriv c (Alt r s) = alt (deriv c r) (deriv c s)"
| "deriv c (Star r) = seq (deriv c r) (Star r)"

fun re_match :: "regex \<Rightarrow> string \<Rightarrow> bool" where
  "re_match r [] = nullable r"
| "re_match r (c # cs) = (nullable r \<or> re_match (deriv c r) cs)"

fun re_search :: "regex \<Rightarrow> string \<Rightarrow> bool" where
  "re_search r [] = nullable r"
| "re_search r (c # cs) = (re_match r (c # cs) \<or> re_search r cs)"

text \<open>The words of a regular expression, to say what the matcher decides.\<close>

definition conc :: "string set \<Rightarrow> string set \<Rightarrow> string set" where
  "conc A B = {u @ v | u v. u \<in> A \<and> v \<in> B}"

inductive_set star :: "string set \<Rightarrow> string set" for A :: "string set" where
  star_empty: "[] \<in> star A"
| star_step: "u \<in> A \<Longrightarrow> v \<in> star A \<Longrightarrow> u @ v \<in> star A"

fun lang :: "regex \<Rightarrow> string set" where
  "lang Fail = {}"
| "lang Eps = {[]}"
| "lang (Class P) = {[c] | c. P c}"
| "lang (Seq r s) = conc (lang r) (lang s)"
| "lang (Alt r s) = lang r \<union> lang s"
| "lang (Star r) = star (lang r)"

section \<open>The context resolver: \<open>_get_error_lines_from_file\<close>\<close>

text \<open>
  What \<open>open(file_name, 'r')\<close> followed by \<open>f.readlines()\<close> does for a path: it raises
  \<open>OSError\<close> (of which \<open>IOError\<close> is an alias: the file is missing, unreadable or a
  directory), it raises \<open>ValueError\<close> (the path holds a null character, or the bytes of
  the file are not text in the encoding: \<open>UnicodeDecodeError\<close> is a \<open>ValueError\<close>), or it
  returns the lines of the file.
\<close>

datatype file_state = Raises_OSError | Raises_ValueError | Readable "string list"

type_synonym file_system = "string \<Rightarrow> file_state"

text \<open>
  The loop of lines 143 to 145: while the current line is blank, step one line back and
  read the line there. The result is the final \<open>line_number\<close> and \<open>target_line\<close>.
\<close>

function blank_walk :: "string list \<Rightarrow> int \<Rightarrow> string \<Rightarrow> exn + (int \<times> string)" where
  "blank_walk lines line_number target_line =
     (if strip target_line = [] then
        (case py_getitem lines (line_number - 1) of
           Inl e \<Rightarrow> Inl e
         | Inr t \<Rightarrow> blank_walk lines (line_number - 1) t)
      else Inr (line_number, target_line))"
  by pat_completeness auto
termination
  by (relation "measure (\<lambda>(lines, line_number, target_line).
        nat (line_number + int (length lines) + 1))")
     (auto simp: py_getitem_def Let_def split: if_splits)

declare blank_walk.simps [simp del]

definition get_error_lines_from_file ::
  "file_system \<Rightarrow> string \<Rightarrow> int \<Rightarrow> exn + (string \<times> string)" where
  "get_error_lines_from_file fs file_name line_number =
     (case fs file_name of
        Raises_OSError \<Rightarrow> Inl IOError
      | Raises_ValueError \<Rightarrow> Inl ValueError
      | Readable lines \<Rightarrow>
          (let file_length = int (length lines);
               line_number = (if line_number \<ge> file_length then file_length - 1 else line_number)
           in case py_getitem lines line_number of
                Inl e \<Rightarrow> Inl e
              | Inr target_line \<Rightarrow>
                  (case blank_walk lines line_number target_line of
                     Inl e \<Rightarrow> Inl e
                   | Inr (line_number, target_line) \<Rightarrow>
                       (if line_number > 0 then
                          (case py_getitem lines (line_number - 1) of
                             Inl e \<Rightarrow> Inl e
                           | Inr prev_line \<Rightarrow> Inr (target_line, prev_line))
                        else Inr (target_line, [])))))"

text \<open>
  The indices at which \<open>lines\<close> is subscripted, in the order of the reads: by the loop
  after its first read (\<open>walk_reads\<close>), and by the whole method (\<open>indices_read\<close>:
  line 142, the loop, line 149).
\<close>

function walk_reads :: "string list \<Rightarrow> int \<Rightarrow> string \<Rightarrow> int list" where
  "walk_reads lines line_number target_line =
     (if strip target_line = [] then
        (line_number - 1) #
        (case py_getitem lines (line_number - 1) of
           Inl e \<Rightarrow> []
         | Inr t \<Rightarrow> walk_reads lines (line_number - 1) t)
      else [])"
  by pat_completeness auto
termination
  by (relation "measure (\<lambda>(lines, line_number, target_line).
        nat (line_number + int (length lines) + 1))")
     (auto simp: py_getitem_def split: if_splits)

declare walk_reads.simps [simp del]

definition indices_read :: "string list \<Rightarrow> int \<Rightarrow> int list" where
  "indices_read lines line_number =
     (let file_length = int (length lines);
          line_number = (if line_number \<ge> file_length then file_length - 1 else line_number)
      in line_number #
         (case py_getitem lines line_number of
            Inl e \<Rightarrow> []
          | Inr target_line \<Rightarrow>
              walk_reads lines line_number target_line @
              (case blank_walk lines line_number target_line of
                 Inl e \<Rightarrow> []
               | Inr (line_number, target_line) \<Rightarrow>
                   (if line_number > 0 then [line_number - 1] else []))))"

section \<open>The heuristic classifier: \<open>_get_extended_error\<close>\<close>

text \<open>
  The constants of \<open>ansible.errors.yaml_strings\<close>. That module is not among the sources,
  so the fixed notes stay symbolic: \<open>error_message\<close> is kept as the list of the pieces
  that the code concatenates, in order.
\<close>

datatype yaml_string =
    YAML_COMMON_DICT_ERROR
  | YAML_COMMON_LEADING_TAB_ERROR
  | YAML_COMMON_PARTIALLY_QUOTED_LINE_ERROR
  | YAML_COMMON_UNBALANCED_QUOTES_ERROR
  | YAML_COMMON_UNQUOTED_COLON_ERROR
  | YAML_COMMON_UNQUOTED_VARIABLE_ERROR
  | YAML_AND_SHORTHAND_ERROR

text \<open>
  A piece is \<open>YAML_POSITION_DETAILS % (src_file, line, column)\<close>, a string built in the
  method, or one of the fixed notes.
\<close>

datatype piece =
    YAML_POSITION_DETAILS string int int
  | Str string
  | Const yaml_string

type_synonym message = "piece list"

text \<open>The notes of a message, in order, and its positional headers.\<close>

fun notes_of :: "message \<Rightarrow> yaml_string list" where
  "notes_of [] = []"
| "notes_of (Const n # ps) = n # notes_of ps"
| "notes_of (p # ps) = notes_of ps"

fun positions_of :: "message \<Rightarrow> (int \<times> int) list" where
  "positions_of [] = []"
| "positions_of (YAML_POSITION_DETAILS f l c # ps) = (l, c) # positions_of ps"
| "positions_of (p # ps) = positions_of ps"

text \<open>The pattern \<open>\w+(\s+)?=(\s+)?[\w/-]+\<close> of line 191.\<close>

definition shorthand :: regex where
  "shorthand =
     Seq (Plus (Class isword))
      (Seq (Opt (Plus (Class isspace)))
        (Seq (Class (\<lambda>c. c = CHR ''=''))
          (Seq (Opt (Plus (Class isspace)))
            (Plus (Class (\<lambda>c. isword c \<or> c = CHR ''/'' \<or> c = CHR ''-''))))))"

text \<open>The conditions of the chain of lines 222 to 235, each on its own.\<close>

definition unquoted_variable :: "string \<Rightarrow> bool" where
  "unquoted_variable target_line =
     ((contains ''{{'' target_line \<and> contains ''}}'' target_line) \<and>
      (\<not> contains [CHR ''\"'', CHR ''{'', CHR ''{''] target_line \<or>
       \<not> contains [CHR 0x27, CHR ''{'', CHR ''{''] target_line))"

definition dict_marker :: "string \<Rightarrow> bool" where
  "dict_marker stripped_line =
     (contains '':{{'' stripped_line \<and> contains ''}}'' stripped_line)"

text \<open>
  The condition of lines 230 to 234. Python's \<open>and\<close> stops at the first false operand, so
  \<open>target_line[col_number]\<close> is read only under the three length tests; it still raises
  when \<open>col_number\<close> is below \<open>-len(target_line)\<close>.
\<close>

definition unquoted_colon :: "string \<Rightarrow> int \<Rightarrow> exn + bool" where
  "unquoted_colon target_line col_number =
     (if length target_line \<noteq> 0 \<and> length target_line > 1 \<and>
         int (length target_line) > col_number then
        (case py_getitem target_line col_number of
           Inl e \<Rightarrow> Inl e
         | Inr c \<Rightarrow> Inr (c = CHR '':'' \<and> str_count target_line CHR '':'' > 1))
      else Inr False)"

text \<open>
  Lines 253 to 256 (\<open>match\<close>) and 261 to 266 (\<open>unbalanced\<close>). In Python \<open>and\<close> binds
  tighter than \<open>or\<close>: the last test of line 265 stands alone beside the four before it.
\<close>

definition partially_quoted :: "string \<Rightarrow> bool" where
  "partially_quoted middle =
     ((startswith middle [CHR 0x27] \<and> \<not> endswith middle [CHR 0x27]) \<or>
      (startswith middle [CHR ''\"''] \<and> \<not> endswith middle [CHR ''\"'']))"

definition unbalanced_quotes :: "string \<Rightarrow> string \<Rightarrow> bool" where
  "unbalanced_quotes middle target_line =
     ((length middle > 0 \<and>
       hd middle \<in> set [CHR ''\"'', CHR 0x27] \<and>
       last middle \<in> set [CHR ''\"'', CHR 0x27] \<and>
       str_count target_line (CHR 0x27) > 2) \<or>
      str_count target_line (CHR ''\"'') > 2)"

text \<open>The last branch of the chain, lines 241 to 272.\<close>

definition quote_checks :: "string \<Rightarrow> message" where
  "quote_checks target_line =
     (let parts = str_split target_line CHR '':''
      in if length parts > 1 then
           (let middle = strip (parts ! 1);
                match = partially_quoted middle;
                unbalanced = unbalanced_quotes middle target_line
            in (if match then [Const YAML_COMMON_PARTIALLY_QUOTED_LINE_ERROR] else []) @
               (if unbalanced then [Const YAML_COMMON_UNBALANCED_QUOTES_ERROR] else []))
         else [])"

text \<open>
  Lines 217 to 272: the tab test, then the chain. The result is what these lines append
  to \<open>error_message\<close> and the exception that ended them, if any.
\<close>

definition common_checks :: "string \<Rightarrow> int \<Rightarrow> message \<times> exn option" where
  "common_checks target_line col_number =
     (let stripped_line = filter (\<lambda>c. c \<noteq> CHR '' '') target_line;
          tab = (if CHR 0x09 \<in> set target_line
                 then [Const YAML_COMMON_LEADING_TAB_ERROR] else [])
      in if unquoted_variable target_line then
           (tab @ [Const YAML_COMMON_UNQUOTED_VARIABLE_ERROR], None)
         else if dict_marker stripped_line then
           (tab @ [Const YAML_COMMON_DICT_ERROR], None)
         else
           (case unquoted_colon target_line col_number of
              Inl e \<Rightarrow> (tab, Some e)
            | Inr True \<Rightarrow> (tab @ [Const YAML_COMMON_UNQUOTED_COLON_ERROR], None)
            | Inr False \<Rightarrow> (tab @ quote_checks target_line, None)))"

text \<open>
  Lines 191 to 213: \<open>error_message\<close> after the shorthand test. The first branch
  assigns it anew, the second appends to it.
\<close>

definition offending_line ::
  "message \<Rightarrow> string \<Rightarrow> int \<Rightarrow> int \<Rightarrow> string \<Rightarrow> string \<Rightarrow> message" where
  "offending_line error_message src_file line_number col_number target_line prev_line =
     (if re_search shorthand prev_line then
        (let error_position = str_find (rstrip prev_line) CHR ''='';
             arrow_line = replicate (nat error_position) CHR '' '' @ ''^ here''
         in [YAML_POSITION_DETAILS src_file (line_number - 1) (error_position + 1),
             Str (''\<newline>The offending line appears to be:\<newline>\<newline>'' @
                  rstrip prev_line @ ''\<newline>'' @ arrow_line @ ''\<newline>\<newline>''),
             Const YAML_AND_SHORTHAND_ERROR])
      else
        (let arrow_line = replicate (nat (col_number - 1)) CHR '' '' @ ''^ here''
         in error_message @
            [Str (''\<newline>The offending line appears to be:\<newline>\<newline>'' @
                  rstrip prev_line @ ''\<newline>'' @ rstrip target_line @ ''\<newline>'' @
                  arrow_line @ ''\<newline>'')]))"

text \<open>
  The body of the \<open>try\<close> statement, lines 171 to 272: the value of \<open>error_message\<close> when
  the body is left, and the exception that left it, if any. \<open>to_text\<close> leaves a \<open>str\<close>
  as it is.
\<close>

definition get_extended_error_try ::
  "file_system \<Rightarrow> string \<Rightarrow> int \<Rightarrow> int \<Rightarrow> bool \<Rightarrow> message \<times> exn option" where
  "get_extended_error_try fs src_file line_number col_number show_content =
     (let error_message = [YAML_POSITION_DETAILS src_file line_number col_number]
      in if src_file \<notin> set [''<string>'', ''<unicode>''] \<and> show_content then
           (case get_error_lines_from_file fs src_file (line_number - 1) of
              Inl e \<Rightarrow> (error_message, Some e)
            | Inr (target_line, prev_line) \<Rightarrow>
                (if target_line \<noteq> [] then
                   (let error_message =
                          offending_line error_message src_file line_number col_number
                            target_line prev_line
                    in case common_checks target_line col_number of
                         (notes, exc) \<Rightarrow> (error_message @ notes, exc))
                 else (error_message, None)))
         else (error_message, None))"

text \<open>
  The whole method: the two \<open>except\<close> clauses of lines 275 to 279 append their sentence
  to \<open>error_message\<close>; any other exception leaves the method (\<open>Inl\<close>).
\<close>

definition get_extended_error ::
  "file_system \<Rightarrow> string \<Rightarrow> int \<Rightarrow> int \<Rightarrow> bool \<Rightarrow> exn + message" where
  "get_extended_error fs src_file line_number col_number show_content =
     (case get_extended_error_try fs src_file line_number col_number show_content of
        (error_message, None) \<Rightarrow> Inr error_message
      | (error_message, Some e) \<Rightarrow>
          (if e = IOError \<or> e = TypeError then
             Inr (error_message @ [Str ''\<newline>(could not open file to display line)''])
           else if e = IndexError then
             Inr (error_message @
                  [Str ''\<newline>(specified line no longer in file, maybe it changed?)''])
           else Inl e))"

text \<open>
  The string that a message stands for, given the text that \<open>YAML_POSITION_DETAILS\<close>
  yields for a source, a line and a column, and the text of each fixed note.
\<close>

definition render ::
  "(string \<Rightarrow> int \<Rightarrow> int \<Rightarrow> string) \<Rightarrow> (yaml_string \<Rightarrow> string) \<Rightarrow> message \<Rightarrow> string" where
  "render position_details note msg =
     concat (map (\<lambda>p. case p of
                          YAML_POSITION_DETAILS f l c \<Rightarrow> position_details f l c
                        | Str s \<Rightarrow> s
                        | Const n \<Rightarrow> note n) msg)"

section \<open>Facts about the Python values\<close>

lemma strip_Nil_iff: "strip s = [] \<longleftrightarrow> (\<forall>c\<in>set s. isspace c)"
proof
  assume "strip s = []"
  then have a: "\<forall>c\<in>set (dropWhile isspace (rev s)). isspace c"
    by (simp add: strip_def rstrip_def)
  have "set (rev s) = set (takeWhile isspace (rev s)) \<union> set (dropWhile isspace (rev s))"
    by (metis set_append takeWhile_dropWhile_id)
  moreover have "\<forall>c\<in>set (takeWhile isspace (rev s)). isspace c"
    by (auto dest: set_takeWhileD)
  ultimately show "\<forall>c\<in>set s. isspace c"
    using a by auto
next
  assume b: "\<forall>c\<in>set s. isspace c"
  have "set (rstrip s) \<subseteq> set s"
    unfolding rstrip_def using set_dropWhileD [of _ isspace "rev s"] by auto
  with b show "strip s = []"
    by (auto simp: strip_def)
qed

subsection \<open>The matcher decides the words of the expression\<close>

lemma concE: "w \<in> conc A B \<Longrightarrow> (\<And>u v. w = u @ v \<Longrightarrow> u \<in> A \<Longrightarrow> v \<in> B \<Longrightarrow> P) \<Longrightarrow> P"
  by (auto simp: conc_def)

lemma star_Cons:
  "w \<in> star A \<Longrightarrow> w = c # x \<Longrightarrow> \<exists>u v. x = u @ v \<and> c # u \<in> A \<and> v \<in> star A"
proof (induction arbitrary: x rule: star.induct)
  case star_empty
  then show ?case by simp
next
  case (star_step u v)
  show ?case
  proof (cases u)
    case Nil
    with star_step show ?thesis by simp
  next
    case (Cons a u')
    with star_step.prems have "a = c" and "x = u' @ v" by simp_all
    with Cons star_step.hyps show ?thesis by blast
  qed
qed

lemma nullable_iff: "nullable r \<longleftrightarrow> [] \<in> lang r"
proof (induction r)
  case (Star r)
  show ?case by (simp add: star_empty)
qed (auto simp: conc_def)

lemma lang_seq: "lang (seq r s) = conc (lang r) (lang s)"
  by (cases "(r, s)" rule: seq.cases) (auto simp: conc_def)

lemma lang_alt: "lang (alt r s) = lang r \<union> lang s"
  by (cases "(r, s)" rule: alt.cases) auto

lemma deriv_iff: "w \<in> lang (deriv c r) \<longleftrightarrow> c # w \<in> lang r"
proof (induction r arbitrary: w)
  case Fail
  show ?case by simp
next
  case Eps
  show ?case by simp
next
  case (Class P)
  show ?case by auto
next
  case (Seq r s)
  have split: "c # w \<in> conc (lang r) (lang s) \<longleftrightarrow>
      (\<exists>u v. w = u @ v \<and> c # u \<in> lang r \<and> v \<in> lang s) \<or> ([] \<in> lang r \<and> c # w \<in> lang s)"
    by (auto simp: conc_def Cons_eq_append_conv)
  show ?case
    using Seq.IH split by (auto simp: nullable_iff lang_seq lang_alt conc_def)
next
  case (Alt r s)
  then show ?case by (simp add: lang_alt)
next
  case (Star r)
  have "c # w \<in> star (lang r) \<longleftrightarrow> (\<exists>u v. w = u @ v \<and> c # u \<in> lang r \<and> v \<in> star (lang r))"
  proof
    assume "c # w \<in> star (lang r)"
    from star_Cons [OF this refl] show "\<exists>u v. w = u @ v \<and> c # u \<in> lang r \<and> v \<in> star (lang r)" .
  next
    assume "\<exists>u v. w = u @ v \<and> c # u \<in> lang r \<and> v \<in> star (lang r)"
    then obtain u v where "w = u @ v" "c # u \<in> lang r" "v \<in> star (lang r)" by blast
    then show "c # w \<in> star (lang r)"
      using star_step [of "c # u" "lang r" v] by simp
  qed
  with Star.IH show ?case by (auto simp: lang_seq conc_def)
qed

lemma re_match_iff: "re_match r s \<longleftrightarrow> (\<exists>u v. s = u @ v \<and> u \<in> lang r)"
proof (induction s arbitrary: r)
  case Nil
  show ?case by (simp add: nullable_iff)
next
  case (Cons c cs)
  have "(\<exists>u v. c # cs = u @ v \<and> u \<in> lang r) \<longleftrightarrow>
        [] \<in> lang r \<or> (\<exists>u v. cs = u @ v \<and> c # u \<in> lang r)"
    by (auto simp: Cons_eq_append_conv)
  with Cons.IH [of "deriv c r"] show ?case
    by (simp add: nullable_iff deriv_iff)
qed

lemma re_search_iff: "re_search r s \<longleftrightarrow> (\<exists>p u v. s = p @ u @ v \<and> u \<in> lang r)"
proof (induction s)
  case Nil
  show ?case by (simp add: nullable_iff)
next
  case (Cons c cs)
  have "(\<exists>p u v. c # cs = p @ u @ v \<and> u \<in> lang r) \<longleftrightarrow>
        (\<exists>u v. c # cs = u @ v \<and> u \<in> lang r) \<or> (\<exists>p u v. cs = p @ u @ v \<and> u \<in> lang r)"
    (is "?L \<longleftrightarrow> ?A \<or> ?B")
  proof
    assume ?L
    then obtain p u v where e: "c # cs = p @ u @ v" and u: "u \<in> lang r" by blast
    show "?A \<or> ?B"
    proof (cases p)
      case Nil
      with e u show ?thesis by auto
    next
      case (Cons a p')
      with e have "cs = p' @ u @ v" by simp
      with u show ?thesis by blast
    qed
  next
    assume "?A \<or> ?B"
    then show ?L
    proof
      assume ?A
      then obtain u v where "c # cs = [] @ u @ v" "u \<in> lang r" by auto
      then show ?L by blast
    next
      assume ?B
      then obtain p u v where "c # cs = (c # p) @ u @ v" "u \<in> lang r" by auto
      then show ?L by blast
    qed
  qed
  with Cons.IH show ?case
    using re_match_iff [of r "c # cs"] by simp
qed

lemma shorthand_word:
  assumes "u \<in> lang shorthand"
  shows "CHR ''='' \<in> set u"
proof -
  from assms obtain a b where "u = a @ b"
    and "b \<in> lang (Seq (Opt (Plus (Class isspace)))
        (Seq (Class (\<lambda>c. c = CHR ''=''))
          (Seq (Opt (Plus (Class isspace)))
            (Plus (Class (\<lambda>c. isword c \<or> c = CHR ''/'' \<or> c = CHR ''-''))))))"
    unfolding shorthand_def by (auto elim: concE)
  then obtain b1 b2 where "b = b1 @ b2"
    and "b2 \<in> lang (Seq (Class (\<lambda>c. c = CHR ''=''))
          (Seq (Opt (Plus (Class isspace)))
            (Plus (Class (\<lambda>c. isword c \<or> c = CHR ''/'' \<or> c = CHR ''-'')))))"
    by (auto elim: concE)
  then obtain d where "b2 = CHR ''='' # d"
    by (auto elim!: concE)
  with \<open>u = a @ b\<close> \<open>b = b1 @ b2\<close> show ?thesis by simp
qed

lemma shorthand_has_equals: "re_search shorthand s \<Longrightarrow> CHR ''='' \<in> set s"
  using shorthand_word by (auto simp: re_search_iff)

section \<open>Facts about the resolver\<close>

text \<open>The loop only steps backwards, and the line it stops at is not blank.\<close>

lemma blank_walk_result:
  "blank_walk lines i t = Inr (k, t') \<Longrightarrow> strip t' \<noteq> [] \<and> k \<le> i"
proof (induction lines i t rule: blank_walk.induct)
  case (1 lines line_number target_line)
  show ?case
  proof (cases "strip target_line = []")
    case True
    with "1.prems" obtain t where
      g: "py_getitem lines (line_number - 1) = Inr t" and
      w: "blank_walk lines (line_number - 1) t = Inr (k, t')"
      by (subst (asm) blank_walk.simps) (auto split: sum.splits)
    from "1.IH" [OF True g w] show ?thesis by simp
  next
    case False
    with "1.prems" show ?thesis
      by (subst (asm) blank_walk.simps) simp
  qed
qed

lemma target_line_strip:
  assumes "get_error_lines_from_file fs file_name line_number = Inr (target_line, prev_line)"
  shows "strip target_line \<noteq> []"
  using assms blank_walk_result
  by (auto simp: get_error_lines_from_file_def Let_def
           split: file_state.splits sum.splits if_splits)

lemma target_line_nonempty:
  assumes "get_error_lines_from_file fs file_name line_number = Inr (target_line, prev_line)"
  shows "target_line \<noteq> []"
  using target_line_strip [OF assms] by (auto simp: strip_def rstrip_def)

text \<open>
  C10. Whenever \<open>_get_error_lines_from_file\<close> returns normally, for any integer
  \<open>line_number\<close> and any file, the returned \<open>target_line\<close> holds a character that is not
  whitespace: a blank line is never returned as the target line.
\<close>

theorem target_line_not_blank:
  assumes "get_error_lines_from_file fs file_name line_number = Inr (target_line, prev_line)"
  shows "\<exists>c\<in>set target_line. \<not> isspace c"
  using target_line_strip [OF assms] by (simp add: strip_Nil_iff)

theorem target_line_not_blank_witness:
  "get_error_lines_from_file
     (\<lambda>f. Readable [''code\<newline>'', ''\<newline>'', '' \<newline>'']) ''site.yml'' 7
     = Inr (''code\<newline>'', []) \<and>
   (\<exists>c\<in>set ''code\<newline>''. \<not> isspace c)"
proof -
  have h: "get_error_lines_from_file
             (\<lambda>f. Readable [''code\<newline>'', ''\<newline>'', '' \<newline>'']) ''site.yml'' 7
           = Inr (''code\<newline>'', [])"
    by code_simp
  from h target_line_not_blank [OF h] show ?thesis by blast
qed

lemma walk_reads_less: "j \<in> set (walk_reads lines i t) \<Longrightarrow> j < i"
proof (induction lines i t rule: walk_reads.induct)
  case (1 lines line_number target_line)
  from "1.prems" have b: "strip target_line = []"
    by (subst (asm) walk_reads.simps) (auto split: if_splits)
  show ?case
  proof (cases "py_getitem lines (line_number - 1)")
    case (Inl e)
    with "1.prems" b show ?thesis
      by (subst (asm) walk_reads.simps) simp
  next
    case (Inr t)
    with "1.prems" b have "j = line_number - 1 \<or> j \<in> set (walk_reads lines (line_number - 1) t)"
      by (subst (asm) walk_reads.simps) simp
    with "1.IH" [OF b Inr] show ?thesis by auto
  qed
qed

lemma blank_walk_read:
  "blank_walk lines i t = Inr (k, t') \<Longrightarrow>
     (k = i \<and> t' = t) \<or> (k \<in> set (walk_reads lines i t) \<and> py_getitem lines k = Inr t')"
proof (induction lines i t rule: blank_walk.induct)
  case (1 lines line_number target_line)
  show ?case
  proof (cases "strip target_line = []")
    case True
    with "1.prems" obtain t where
      g: "py_getitem lines (line_number - 1) = Inr t" and
      w: "blank_walk lines (line_number - 1) t = Inr (k, t')"
      by (subst (asm) blank_walk.simps) (auto split: sum.splits)
    have r: "walk_reads lines line_number target_line =
               (line_number - 1) # walk_reads lines (line_number - 1) t"
      using True g by (subst walk_reads.simps) simp
    from "1.IH" [OF True g w] g r show ?thesis by auto
  next
    case False
    with "1.prems" show ?thesis
      by (subst (asm) blank_walk.simps) simp
  qed
qed

lemma indices_read_less:
  assumes "i \<in> set (indices_read lines line_number)"
  shows "i < int (length lines)"
proof -
  define c where
    "c = (if line_number \<ge> int (length lines) then int (length lines) - 1 else line_number)"
  have c: "c < int (length lines)"
    by (simp add: c_def)
  have unfold: "indices_read lines line_number =
      c # (case py_getitem lines c of
             Inl e \<Rightarrow> []
           | Inr t \<Rightarrow> walk_reads lines c t @
               (case blank_walk lines c t of
                  Inl e \<Rightarrow> []
                | Inr (k, t') \<Rightarrow> (if k > 0 then [k - 1] else [])))"
    unfolding indices_read_def Let_def c_def by simp
  show ?thesis
  proof (cases "py_getitem lines c")
    case (Inl e)
    with assms unfold c show ?thesis by simp
  next
    case (Inr t)
    show ?thesis
    proof (cases "blank_walk lines c t")
      case (Inl e)
      with assms unfold Inr have "i = c \<or> i \<in> set (walk_reads lines c t)" by simp
      with c walk_reads_less [of i lines c t] show ?thesis by auto
    next
      case w: (Inr p)
      obtain k t' where p: "p = (k, t')" by (cases p)
      from blank_walk_result [of lines c t k t'] w p have "k \<le> c" by simp
      moreover from assms unfold Inr w p
      have "i = c \<or> i \<in> set (walk_reads lines c t) \<or> i = k - 1"
        by (auto split: if_splits)
      ultimately show ?thesis
        using c walk_reads_less [of i lines c t] by auto
    qed
  qed
qed

text \<open>The line returned as \<open>target_line\<close> was read at one of the recorded indices.\<close>

lemma target_line_read:
  assumes "fs file_name = Readable lines"
    and "get_error_lines_from_file fs file_name line_number = Inr (target_line, prev_line)"
  shows "\<exists>k\<in>set (indices_read lines line_number). py_getitem lines k = Inr target_line"
proof -
  define c where "c = (if line_number \<ge> int (length lines) then int (length lines) - 1 else line_number)"
  from assms obtain t0 k where
    g: "py_getitem lines c = Inr t0" and w: "blank_walk lines c t0 = Inr (k, target_line)"
    by (auto simp: get_error_lines_from_file_def Let_def c_def split: sum.splits if_splits)
  have r: "set (indices_read lines line_number) \<supseteq> {c} \<union> set (walk_reads lines c t0)"
    using g by (auto simp: indices_read_def Let_def c_def)
  from blank_walk_read [OF w] g r show ?thesis by auto
qed

text \<open>
  C8. For a readable file and a requested \<open>line_number\<close> at or beyond the number of
  lines, the resolver behaves exactly as for \<open>number_of_lines - 1\<close>: it returns the same
  result and reads the same indices; and no index at which it subscripts \<open>lines\<close> is at or
  beyond the length of the file.
\<close>

theorem line_number_clamped:
  assumes "fs file_name = Readable lines" and "int (length lines) \<le> line_number"
  shows "get_error_lines_from_file fs file_name line_number =
           get_error_lines_from_file fs file_name (int (length lines) - 1) \<and>
         indices_read lines line_number = indices_read lines (int (length lines) - 1) \<and>
         list_all (\<lambda>i. i < int (length lines)) (indices_read lines line_number)"
proof -
  have same_result: "get_error_lines_from_file fs file_name line_number =
      get_error_lines_from_file fs file_name (int (length lines) - 1)"
    using assms by (simp add: get_error_lines_from_file_def Let_def)
  have same_reads: "indices_read lines line_number = indices_read lines (int (length lines) - 1)"
    using assms(2) by (simp add: indices_read_def Let_def)
  have "\<forall>i\<in>set (indices_read lines line_number). i < int (length lines)"
    using indices_read_less by blast
  with same_result same_reads show ?thesis
    by (simp add: list_all_iff)
qed

theorem line_number_clamped_witness:
  "int (length [''a\<newline>'', ''b\<newline>'']) \<le> 5 \<and>
   get_error_lines_from_file (\<lambda>f. Readable [''a\<newline>'', ''b\<newline>'']) ''site.yml'' 5 =
     get_error_lines_from_file (\<lambda>f. Readable [''a\<newline>'', ''b\<newline>'']) ''site.yml''
       (int (length [''a\<newline>'', ''b\<newline>'']) - 1) \<and>
   get_error_lines_from_file (\<lambda>f. Readable [''a\<newline>'', ''b\<newline>'']) ''site.yml'' 5 =
     Inr (''b\<newline>'', ''a\<newline>'') \<and>
   indices_read [''a\<newline>'', ''b\<newline>''] 5 = [1, 0]"
proof -
  have r: "get_error_lines_from_file (\<lambda>f. Readable [''a\<newline>'', ''b\<newline>'']) ''site.yml'' 5 =
     Inr (''b\<newline>'', ''a\<newline>'')"
    by code_simp
  have i: "indices_read [''a\<newline>'', ''b\<newline>''] 5 = [1, 0]"
    by code_simp
  from r i line_number_clamped [of "\<lambda>f. Readable [''a\<newline>'', ''b\<newline>'']" "''site.yml''"
      "[''a\<newline>'', ''b\<newline>'']" 5]
  show ?thesis by simp
qed

text \<open>
  When the walk fails: for a request at index 0 or above, the resolver raises
  \<open>IndexError\<close> exactly when every line of the file is blank (an empty file included);
  with one line that is not blank anywhere in the file it returns a line.
\<close>

lemma py_getitem_Inr_iff:
  "(\<exists>x. py_getitem xs i = Inr x) \<longleftrightarrow> - int (length xs) \<le> i \<and> i < int (length xs)"
  by (auto simp: py_getitem_def)

lemma py_getitem_in_set: "py_getitem xs i = Inr x \<Longrightarrow> x \<in> set xs"
  by (auto simp: py_getitem_def split: if_splits)

lemma py_getitem_Inl: "py_getitem xs i = Inl e \<Longrightarrow> e = IndexError"
  by (auto simp: py_getitem_def split: if_splits)

lemma blank_walk_all_blank:
  "\<forall>l\<in>set lines. strip l = [] \<Longrightarrow> t \<in> set lines \<Longrightarrow> blank_walk lines i t = Inl IndexError"
proof (induction lines i t rule: blank_walk.induct)
  case (1 lines line_number target_line)
  from "1.prems" have b: "strip target_line = []" by simp
  show ?case
  proof (cases "py_getitem lines (line_number - 1)")
    case (Inl e)
    with b py_getitem_Inl [OF Inl] show ?thesis
      by (subst blank_walk.simps) simp
  next
    case (Inr t)
    from "1.IH" [OF b Inr "1.prems"(1) py_getitem_in_set [OF Inr]] b Inr show ?thesis
      by (subst blank_walk.simps) simp
  qed
qed

lemma resolver_all_blank:
  assumes "fs file_name = Readable lines" and "\<forall>l\<in>set lines. strip l = []"
  shows "get_error_lines_from_file fs file_name n = Inl IndexError"
  using assms
  by (auto simp: get_error_lines_from_file_def Let_def blank_walk_all_blank
        split: sum.splits dest: py_getitem_Inl py_getitem_in_set)

lemma blank_walk_finds:
  "py_getitem lines i = Inr t \<Longrightarrow> j \<le> i \<Longrightarrow> py_getitem lines j = Inr t' \<Longrightarrow> strip t' \<noteq> [] \<Longrightarrow>
     \<exists>k u. blank_walk lines i t = Inr (k, u)"
proof (induction lines i t rule: blank_walk.induct)
  case (1 lines line_number target_line)
  show ?case
  proof (cases "strip target_line = []")
    case False
    then show ?thesis
      by (subst blank_walk.simps) simp
  next
    case True
    with "1.prems" have "j \<noteq> line_number" by auto
    with "1.prems"(2) have j: "j \<le> line_number - 1" by simp
    have "- int (length lines) \<le> line_number - 1 \<and> line_number - 1 < int (length lines)"
      using py_getitem_Inr_iff [of lines j] py_getitem_Inr_iff [of lines line_number] "1.prems" j
      by auto
    then obtain t where t: "py_getitem lines (line_number - 1) = Inr t"
      using py_getitem_Inr_iff [of lines "line_number - 1"] by blast
    from "1.IH" [OF True t t j "1.prems"(3,4)] True t show ?thesis
      by (subst blank_walk.simps) simp
  qed
qed

lemma resolver_finds:
  assumes "fs file_name = Readable lines" and "0 \<le> n" and "l \<in> set lines" and "strip l \<noteq> []"
  shows "\<exists>target_line prev_line.
           get_error_lines_from_file fs file_name n = Inr (target_line, prev_line)"
proof -
  define c where "c = (if n \<ge> int (length lines) then int (length lines) - 1 else n)"
  from assms(3) obtain m where m: "m < length lines" "lines ! m = l"
    by (auto simp: in_set_conv_nth)
  then have c: "0 \<le> c" "c < int (length lines)"
    using assms(2) by (auto simp: c_def)
  then obtain t where t: "py_getitem lines c = Inr t"
    using py_getitem_Inr_iff [of lines c] by auto
  have j: "py_getitem lines (int m - int (length lines)) = Inr l"
    using m by (auto simp: py_getitem_def)
  from blank_walk_finds [OF t _ j assms(4)] c m obtain k u where
    w: "blank_walk lines c t = Inr (k, u)" by auto
  from blank_walk_result [OF w] c have "k < int (length lines)" by simp
  then have "0 < k \<Longrightarrow> \<exists>p. py_getitem lines (k - 1) = Inr p"
    using py_getitem_Inr_iff [of lines "k - 1"] by auto
  with assms(1) t w show ?thesis
    by (auto simp: get_error_lines_from_file_def Let_def c_def [symmetric])
qed

lemma resolver_index_error_iff:
  assumes "fs file_name = Readable lines" and "0 \<le> n"
  shows "get_error_lines_from_file fs file_name n = Inl IndexError \<longleftrightarrow>
           (\<forall>l\<in>set lines. strip l = [])"
proof
  assume e: "get_error_lines_from_file fs file_name n = Inl IndexError"
  show "\<forall>l\<in>set lines. strip l = []"
  proof (rule ccontr)
    assume "\<not> (\<forall>l\<in>set lines. strip l = [])"
    then obtain l where "l \<in> set lines" "strip l \<noteq> []" by blast
    with resolver_finds [of fs file_name lines n l] assms e show False by auto
  qed
next
  assume "\<forall>l\<in>set lines. strip l = []"
  with assms(1) show "get_error_lines_from_file fs file_name n = Inl IndexError"
    using resolver_all_blank [of fs file_name lines n] by simp
qed

text \<open>
  C4. The claim: when the clamped target line and every line before it are blank, the
  backward walk leaves the file at its start and fails with an index error, and never
  returns a line from elsewhere in the file. The code at a file whose first line is
  blank and whose second line is not, asked for index 0: the walk goes on to index
  \<open>-1\<close>, which Python reads as the last line, and that later line is returned; the
  classifier then prints it with no fallback sentence.
\<close>

theorem blank_walk_wraps_around:
  "strip ''\<newline>'' = [] \<and>
   get_error_lines_from_file (\<lambda>f. Readable [''\<newline>'', ''code\<newline>'']) ''site.yml'' 0 =
     Inr (''code\<newline>'', []) \<and>
   indices_read [''\<newline>'', ''code\<newline>''] 0 = [0, - 1] \<and>
   get_extended_error (\<lambda>f. Readable [''\<newline>'', ''code\<newline>'']) ''site.yml'' 1 1 True =
     Inr [YAML_POSITION_DETAILS ''site.yml'' 1 1,
          Str ''\<newline>The offending line appears to be:\<newline>\<newline>\<newline>code\<newline>^ here\<newline>'']"
  by code_simp

section \<open>Facts about the classifier\<close>

subsection \<open>Auxiliary facts\<close>

lemma notes_of_append: "notes_of (xs @ ys) = notes_of xs @ notes_of ys"
  by (induction xs rule: notes_of.induct) simp_all

lemma positions_of_append: "positions_of (xs @ ys) = positions_of xs @ positions_of ys"
  by (induction xs rule: positions_of.induct) simp_all

lemma render_append:
  "render position_details note (xs @ ys) =
     render position_details note xs @ render position_details note ys"
  by (simp add: render_def)

lemma offending_line_notes:
  "notes_of (offending_line error_message src_file line_number col_number target_line prev_line) =
     (if re_search shorthand prev_line then [YAML_AND_SHORTHAND_ERROR]
      else notes_of error_message)"
  by (simp add: offending_line_def Let_def notes_of_append)

lemma unquoted_colon_cases:
  "unquoted_colon target_line col_number = Inl IndexError \<or>
   unquoted_colon target_line col_number = Inr True \<or>
   unquoted_colon target_line col_number = Inr False"
  by (auto simp: unquoted_colon_def py_getitem_def split: sum.splits)

lemma common_checks_exc:
  "snd (common_checks target_line col_number) = None \<or>
   snd (common_checks target_line col_number) = Some IndexError"
  using unquoted_colon_cases [of target_line col_number]
  by (auto simp: common_checks_def Let_def)

lemma common_checks_positions:
  "positions_of (fst (common_checks target_line col_number)) = []"
  using unquoted_colon_cases [of target_line col_number]
  by (auto simp: common_checks_def quote_checks_def Let_def positions_of_append)

lemma str_find_nonneg: "c \<in> set s \<Longrightarrow> 0 \<le> str_find s c"
  by (induction s) (auto simp: Let_def)

lemma in_rstrip: "c \<in> set s \<Longrightarrow> \<not> isspace c \<Longrightarrow> c \<in> set (rstrip s)"
proof -
  assume c: "c \<in> set s" and n: "\<not> isspace c"
  have "set (rev s) = set (takeWhile isspace (rev s)) \<union> set (dropWhile isspace (rev s))"
    by (metis set_append takeWhile_dropWhile_id)
  moreover have "c \<notin> set (takeWhile isspace (rev s))"
    using n by (auto dest: set_takeWhileD)
  ultimately show ?thesis
    using c by (auto simp: rstrip_def)
qed

lemma equals_not_space: "\<not> isspace CHR ''=''"
  by (simp add: isspace_def)

lemma shorthand_position:
  "re_search shorthand prev_line \<Longrightarrow> 0 \<le> str_find (rstrip prev_line) CHR ''=''"
  by (intro str_find_nonneg in_rstrip shorthand_has_equals equals_not_space)

lemma prev_line_index:
  assumes "get_error_lines_from_file fs file_name n = Inr (target_line, prev_line)"
    and "prev_line \<noteq> []"
  shows "1 \<le> n"
  using assms
  by (auto simp: get_error_lines_from_file_def Let_def
        split: file_state.splits sum.splits if_splits dest!: blank_walk_result)

lemma common_checks_raises:
  "common_checks target_line col_number = (notes, Some e) \<Longrightarrow> e = IndexError"
  using common_checks_exc [of target_line col_number] by simp

lemma resolver_exn:
  "get_error_lines_from_file fs file_name n = Inl e \<Longrightarrow>
     e = IOError \<or> e = IndexError \<or> (e = ValueError \<and> fs file_name = Raises_ValueError)"
proof -
  have g: "\<And>(xs :: string list) i e. py_getitem xs i = Inl e \<Longrightarrow> e = IndexError"
    by (auto simp: py_getitem_def split: if_splits)
  have w: "\<And>lines i t e. blank_walk lines i t = Inl e \<Longrightarrow> e = IndexError"
  proof -
    fix lines i t e
    show "blank_walk lines i t = Inl e \<Longrightarrow> e = IndexError"
    proof (induction lines i t rule: blank_walk.induct)
      case (1 lines line_number target_line)
      from "1.prems" have b: "strip target_line = []"
        by (subst (asm) blank_walk.simps) (auto split: if_splits)
      show ?case
      proof (cases "py_getitem lines (line_number - 1)")
        case (Inl e')
        with "1.prems" b g [OF Inl] show ?thesis
          by (subst (asm) blank_walk.simps) simp
      next
        case (Inr t)
        with "1.prems" b have "blank_walk lines (line_number - 1) t = Inl e"
          by (subst (asm) blank_walk.simps) simp
        with "1.IH" [OF b Inr] show ?thesis by simp
      qed
    qed
  qed
  assume "get_error_lines_from_file fs file_name n = Inl e"
  then show ?thesis
    by (auto simp: get_error_lines_from_file_def Let_def
          split: file_state.splits sum.splits if_splits dest: g w)
qed

lemma get_extended_error_returns:
  assumes "fs src_file \<noteq> Raises_ValueError"
  shows "\<exists>msg. get_extended_error fs src_file line_number col_number show_content = Inr msg"
proof (cases "get_extended_error_try fs src_file line_number col_number show_content")
  case (Pair error_message exc)
  have "exc = None \<or> exc = Some IOError \<or> exc = Some IndexError"
    using Pair assms resolver_exn [of fs src_file "line_number - 1"]
    by (auto simp: get_extended_error_try_def Let_def
          split: if_splits sum.splits prod.splits dest: common_checks_raises)
  with Pair show ?thesis
    by (auto simp: get_extended_error_def)
qed

lemma offending_line_header:
  assumes "get_error_lines_from_file fs src_file (line_number - 1) = Inr (target_line, prev_line)"
    and "1 \<le> line_number" and "1 \<le> col_number"
  shows "\<exists>l c rest.
           offending_line [YAML_POSITION_DETAILS src_file line_number col_number]
             src_file line_number col_number target_line prev_line =
           YAML_POSITION_DETAILS src_file l c # rest \<and> positions_of rest = [] \<and> 1 \<le> l \<and> 1 \<le> c"
proof (cases "re_search shorthand prev_line")
  case True
  then have "prev_line \<noteq> []"
    using shorthand_has_equals by fastforce
  with assms(1) have "1 \<le> line_number - 1"
    by (rule prev_line_index)
  moreover from True have "1 \<le> str_find (rstrip prev_line) CHR ''='' + 1"
    using shorthand_position by fastforce
  ultimately show ?thesis
    using True by (simp add: offending_line_def Let_def)
next
  case False
  with assms(2,3) show ?thesis
    by (simp add: offending_line_def Let_def)
qed

lemma try_header:
  assumes "1 \<le> line_number" and "1 \<le> col_number"
    and "get_extended_error_try fs src_file line_number col_number show_content = (error_message, exc)"
  shows "\<exists>l c rest. error_message = YAML_POSITION_DETAILS src_file l c # rest \<and>
           positions_of rest = [] \<and> 1 \<le> l \<and> 1 \<le> c"
proof (cases "src_file \<notin> set [''<string>'', ''<unicode>''] \<and> show_content")
  case False
  with assms show ?thesis
    by (auto simp: get_extended_error_try_def)
next
  case guard: True
  show ?thesis
  proof (cases "get_error_lines_from_file fs src_file (line_number - 1)")
    case (Inl e)
    with guard assms show ?thesis
      by (auto simp: get_extended_error_try_def)
  next
    case (Inr tp)
    obtain target_line prev_line where tp: "tp = (target_line, prev_line)"
      by (cases tp)
    from Inr [unfolded tp] have nonempty: "target_line \<noteq> []"
      by (rule target_line_nonempty)
    from offending_line_header [OF Inr [unfolded tp] assms(1,2)]
    obtain l c rest where
      h: "offending_line [YAML_POSITION_DETAILS src_file line_number col_number]
            src_file line_number col_number target_line prev_line =
            YAML_POSITION_DETAILS src_file l c # rest" and
      r: "positions_of rest = []" and lc: "1 \<le> l" "1 \<le> c"
      by blast
    from assms(3) guard Inr tp nonempty
    have "error_message =
            offending_line [YAML_POSITION_DETAILS src_file line_number col_number]
              src_file line_number col_number target_line prev_line @
            fst (common_checks target_line col_number)"
      by (auto simp: get_extended_error_try_def Let_def split: prod.splits)
    with h have "error_message =
        YAML_POSITION_DETAILS src_file l c # (rest @ fst (common_checks target_line col_number))"
      by simp
    moreover have "positions_of (rest @ fst (common_checks target_line col_number)) = []"
      using r by (simp add: positions_of_append common_checks_positions)
    ultimately show ?thesis
      using lc by blast
  qed
qed

lemma quote_checks_notes:
  "filter (\<lambda>n. n = YAML_COMMON_PARTIALLY_QUOTED_LINE_ERROR \<or>
                n = YAML_COMMON_UNBALANCED_QUOTES_ERROR) (notes_of (quote_checks target_line)) =
     notes_of (quote_checks target_line)"
  by (simp add: quote_checks_def Let_def)

subsection \<open>Properties of the classifier\<close>

text \<open>
  C1, as stated, fails. With \<open>prev_line = "foo = bar"\<close>, which matches the pattern, and a
  \<open>target_line\<close> that holds a tab, the output has the shorthand note and, after it, the
  tab note: the method does not return after the shorthand branch.
\<close>

theorem shorthand_does_not_return:
  "re_search shorthand ''foo = bar\<newline>'' \<and>
   get_extended_error (\<lambda>f. Readable [''foo = bar\<newline>'', [CHR 0x09] @ ''x\<newline>''])
     ''tasks.yml'' 2 1 True =
     Inr [YAML_POSITION_DETAILS ''tasks.yml'' 1 5,
          Str ''\<newline>The offending line appears to be:\<newline>\<newline>foo = bar\<newline>    ^ here\<newline>\<newline>'',
          Const YAML_AND_SHORTHAND_ERROR,
          Const YAML_COMMON_LEADING_TAB_ERROR]"
  by code_simp

text \<open>
  C1, amended. If \<open>prev_line\<close> matches the shorthand pattern, the classifier rewrites the
  positional header to \<open>line_number - 1\<close> and the \<open>=\<close> offset plus one, appends the
  right-trimmed \<open>prev_line\<close> with a caret line at the \<open>=\<close> offset and the shorthand
  note, and then goes on: the tab test and the chain of checks run on \<open>target_line\<close> as
  on the other path and append their notes after the shorthand note.
\<close>

theorem shorthand_then_common_checks:
  assumes "src_file \<notin> set [''<string>'', ''<unicode>'']" and "show_content"
    and "get_error_lines_from_file fs src_file (line_number - 1) = Inr (target_line, prev_line)"
    and "re_search shorthand prev_line"
  shows "get_extended_error fs src_file line_number col_number show_content =
     Inr ([YAML_POSITION_DETAILS src_file (line_number - 1)
             (str_find (rstrip prev_line) CHR ''='' + 1),
           Str (''\<newline>The offending line appears to be:\<newline>\<newline>'' @ rstrip prev_line @
                ''\<newline>'' @
                replicate (nat (str_find (rstrip prev_line) CHR ''='')) CHR '' '' @ ''^ here'' @
                ''\<newline>\<newline>''),
           Const YAML_AND_SHORTHAND_ERROR] @
          fst (common_checks target_line col_number) @
          (if snd (common_checks target_line col_number) = None then []
           else [Str ''\<newline>(specified line no longer in file, maybe it changed?)'']))"
proof -
  from assms(3) have nonempty: "target_line \<noteq> []"
    by (rule target_line_nonempty)
  obtain appended exc where cc: "common_checks target_line col_number = (appended, exc)"
    by (cases "common_checks target_line col_number")
  have exc: "exc = None \<or> exc = Some IndexError"
    using common_checks_exc [of target_line col_number] cc by simp
  from assms nonempty cc exc show ?thesis
    by (auto simp: get_extended_error_def get_extended_error_try_def offending_line_def Let_def)
qed

theorem shorthand_then_common_checks_witness:
  "''tasks.yml'' \<notin> set [''<string>'', ''<unicode>''] \<and>
   get_error_lines_from_file (\<lambda>f. Readable [''a=b\<newline>'', ''c: {{ d }}\<newline>'']) ''tasks.yml'' (2 - 1) =
     Inr (''c: {{ d }}\<newline>'', ''a=b\<newline>'') \<and>
   re_search shorthand ''a=b\<newline>'' \<and>
   get_extended_error (\<lambda>f. Readable [''a=b\<newline>'', ''c: {{ d }}\<newline>'']) ''tasks.yml'' 2 4 True =
     Inr [YAML_POSITION_DETAILS ''tasks.yml'' 1 2,
          Str ''\<newline>The offending line appears to be:\<newline>\<newline>a=b\<newline> ^ here\<newline>\<newline>'',
          Const YAML_AND_SHORTHAND_ERROR,
          Const YAML_COMMON_UNQUOTED_VARIABLE_ERROR]"
proof -
  have g: "''tasks.yml'' \<notin> set [''<string>'', ''<unicode>'']"
    by simp
  have r: "get_error_lines_from_file (\<lambda>f. Readable [''a=b\<newline>'', ''c: {{ d }}\<newline>''])
             ''tasks.yml'' (2 - 1) = Inr (''c: {{ d }}\<newline>'', ''a=b\<newline>'')"
    by code_simp
  have m: "re_search shorthand ''a=b\<newline>''"
    by code_simp
  have f: "str_find (rstrip ''a=b\<newline>'') CHR ''='' = 1" and t: "rstrip ''a=b\<newline>'' = ''a=b''"
    by code_simp+
  have cc: "common_checks ''c: {{ d }}\<newline>'' 4 = ([Const YAML_COMMON_UNQUOTED_VARIABLE_ERROR], None)"
    by code_simp
  from shorthand_then_common_checks [OF g TrueI r m, of 4] g r m
  show ?thesis
    by (simp add: f t cc)
qed

text \<open>
  C2, as stated, fails. The line \<open>k: "x" {{ y }} "z" "w"\<close> is the target of a request
  off the shorthand path; the quote-balance check on it yields the unbalanced-quotes
  note, but the unquoted-variable check fires and the output has no quote note.
\<close>

theorem quote_checks_skipped:
  "\<not> re_search shorthand [] \<and>
   unquoted_variable ''k: \"x\" {{ y }} \"z\" \"w\"\<newline>'' \<and>
   quote_checks ''k: \"x\" {{ y }} \"z\" \"w\"\<newline>'' =
     [Const YAML_COMMON_UNBALANCED_QUOTES_ERROR] \<and>
   get_extended_error (\<lambda>f. Readable [''k: \"x\" {{ y }} \"z\" \"w\"\<newline>''])
     ''site.yml'' 1 1 True =
     Inr [YAML_POSITION_DETAILS ''site.yml'' 1 1,
          Str ''\<newline>The offending line appears to be:\<newline>\<newline>\<newline>k: \"x\" {{ y }} \"z\" \"w\"\<newline>^ here\<newline>'',
          Const YAML_COMMON_UNQUOTED_VARIABLE_ERROR]"
  by code_simp

text \<open>
  C2, amended. The quote-balance check is the last branch of the chain of the
  unquoted-variable, dict-marker and unquoted-colon checks: its notes are appended, as
  its two conditions say, exactly when none of those three fired (and the colon test did
  not raise); when one of them fired, no quote note is appended.
\<close>

theorem quote_checks_last_in_chain:
  assumes "src_file \<notin> set [''<string>'', ''<unicode>'']" and "show_content"
    and "get_error_lines_from_file fs src_file (line_number - 1) = Inr (target_line, prev_line)"
  shows "\<exists>msg. get_extended_error fs src_file line_number col_number show_content = Inr msg \<and>
     filter (\<lambda>n. n = YAML_COMMON_PARTIALLY_QUOTED_LINE_ERROR \<or>
                  n = YAML_COMMON_UNBALANCED_QUOTES_ERROR) (notes_of msg) =
       (if unquoted_variable target_line then []
        else if dict_marker (filter (\<lambda>c. c \<noteq> CHR '' '') target_line) then []
        else if unquoted_colon target_line col_number = Inr False
          then notes_of (quote_checks target_line)
        else [])"
proof -
  from assms(3) have nonempty: "target_line \<noteq> []"
    by (rule target_line_nonempty)
  from assms nonempty unquoted_colon_cases [of target_line col_number] show ?thesis
    by (auto simp: get_extended_error_def get_extended_error_try_def common_checks_def Let_def
          notes_of_append offending_line_notes quote_checks_notes)
qed

theorem quote_checks_last_in_chain_witness:
  "''site.yml'' \<notin> set [''<string>'', ''<unicode>''] \<and>
   get_error_lines_from_file (\<lambda>f. Readable [''msg: 'a: b\<newline>'']) ''site.yml'' (1 - 1) =
     Inr (''msg: 'a: b\<newline>'', []) \<and>
   unquoted_colon ''msg: 'a: b\<newline>'' 3 = Inr True \<and>
   notes_of (quote_checks ''msg: 'a: b\<newline>'') = [YAML_COMMON_PARTIALLY_QUOTED_LINE_ERROR] \<and>
   (\<exists>msg. get_extended_error (\<lambda>f. Readable [''msg: 'a: b\<newline>'']) ''site.yml'' 1 3 True = Inr msg \<and>
      filter (\<lambda>n. n = YAML_COMMON_PARTIALLY_QUOTED_LINE_ERROR \<or>
                   n = YAML_COMMON_UNBALANCED_QUOTES_ERROR) (notes_of msg) = [])"
proof -
  have g: "''site.yml'' \<notin> set [''<string>'', ''<unicode>'']"
    by simp
  have r: "get_error_lines_from_file (\<lambda>f. Readable [''msg: 'a: b\<newline>'']) ''site.yml'' (1 - 1) =
     Inr (''msg: 'a: b\<newline>'', [])"
    by code_simp
  have c: "unquoted_colon ''msg: 'a: b\<newline>'' 3 = Inr True"
    by code_simp
  have q: "notes_of (quote_checks ''msg: 'a: b\<newline>'') = [YAML_COMMON_PARTIALLY_QUOTED_LINE_ERROR]"
    by code_simp
  from quote_checks_last_in_chain [OF g TrueI r, of 3] g r c q
  show ?thesis
    by (auto split: if_splits)
qed

text \<open>
  C3. The claim: the unbalanced-quotes note is appended only if \<open>middle\<close> has a quote
  character at both ends. The code at the line \<open>a: b "c" "d"\<close>: \<open>middle\<close> starts with
  \<open>b\<close>, the line has four double quotes, and the note is appended.
\<close>

theorem unbalanced_without_outer_quotes:
  "strip (str_split ''a: b \"c\" \"d\"\<newline>'' CHR '':'' ! 1) = ''b \"c\" \"d\"'' \<and>
   hd ''b \"c\" \"d\"'' \<notin> set [CHR ''\"'', CHR 0x27] \<and>
   unbalanced_quotes ''b \"c\" \"d\"'' ''a: b \"c\" \"d\"\<newline>'' \<and>
   get_extended_error (\<lambda>f. Readable [''a: b \"c\" \"d\"\<newline>'']) ''site.yml'' 1 1 True =
     Inr [YAML_POSITION_DETAILS ''site.yml'' 1 1,
          Str ''\<newline>The offending line appears to be:\<newline>\<newline>\<newline>a: b \"c\" \"d\"\<newline>^ here\<newline>'',
          Const YAML_COMMON_UNBALANCED_QUOTES_ERROR]"
  by code_simp

text \<open>
  C5. The claim: the method returns a string for every input and lets no exception
  out. The code at a file whose reading raises \<open>ValueError\<close>: neither \<open>except\<close> clause
  names it, and it leaves the method.
\<close>

theorem value_error_propagates:
  "get_extended_error (\<lambda>f. Raises_ValueError) ''vars.yml'' 1 1 True = Inl ValueError"
  by code_simp

text \<open>
  C6. When \<open>show_content\<close> is false, or the source identifier is \<open><string>\<close> or
  \<open><unicode>\<close>, the output is the positional header alone, whatever the file system
  holds: two runs that differ only in the files give the same output.
\<close>

theorem content_suppressed:
  assumes "\<not> show_content \<or> src_file \<in> set [''<string>'', ''<unicode>'']"
  shows "get_extended_error fs src_file line_number col_number show_content =
           Inr [YAML_POSITION_DETAILS src_file line_number col_number] \<and>
         get_extended_error fs src_file line_number col_number show_content =
           get_extended_error fs' src_file line_number col_number show_content"
  using assms
  by (auto simp: get_extended_error_def get_extended_error_try_def)

theorem content_suppressed_witness:
  "get_extended_error (\<lambda>f. Readable [''secret: hunter2\<newline>'']) ''vault.yml'' 1 9 False =
     Inr [YAML_POSITION_DETAILS ''vault.yml'' 1 9] \<and>
   get_extended_error (\<lambda>f. Readable [''secret: hunter2\<newline>'']) ''vault.yml'' 1 9 False =
     get_extended_error (\<lambda>f. Raises_OSError) ''vault.yml'' 1 9 False"
proof -
  have h: "\<not> False \<or> ''vault.yml'' \<in> set [''<string>'', ''<unicode>'']"
    by simp
  show ?thesis
    by (rule content_suppressed [OF h])
qed

text \<open>
  C7. When the unquoted-variable check fires on \<open>target_line\<close>, neither the dictionary
  note nor the unquoted-colon note is appended, whatever else the line holds; the notes
  of the output are then the shorthand note (if \<open>prev_line\<close> matches), the tab note (if
  the line has a tab) and the unquoted-variable note.
\<close>

theorem unquoted_variable_first_in_chain:
  assumes "get_error_lines_from_file fs src_file (line_number - 1) = Inr (target_line, prev_line)"
    and "unquoted_variable target_line"
  shows "\<exists>msg. get_extended_error fs src_file line_number col_number show_content = Inr msg \<and>
           YAML_COMMON_DICT_ERROR \<notin> set (notes_of msg) \<and>
           YAML_COMMON_UNQUOTED_COLON_ERROR \<notin> set (notes_of msg) \<and>
           notes_of msg =
             (if src_file \<notin> set [''<string>'', ''<unicode>''] \<and> show_content then
                (if re_search shorthand prev_line then [YAML_AND_SHORTHAND_ERROR] else []) @
                (if CHR 0x09 \<in> set target_line then [YAML_COMMON_LEADING_TAB_ERROR] else []) @
                [YAML_COMMON_UNQUOTED_VARIABLE_ERROR]
              else [])"
proof -
  from assms(1) have "target_line \<noteq> []"
    by (rule target_line_nonempty)
  with assms show ?thesis
    by (auto simp: get_extended_error_def get_extended_error_try_def common_checks_def Let_def
        notes_of_append offending_line_notes)
qed

theorem unquoted_variable_first_in_chain_witness:
  "get_error_lines_from_file
     (\<lambda>f. Readable [''- hosts: all\<newline>'', ''  vars:\<newline>'', ''    password: {{ secret }}\<newline>''])
     ''site.yml'' (3 - 1) = Inr (''    password: {{ secret }}\<newline>'', ''  vars:\<newline>'') \<and>
   unquoted_variable ''    password: {{ secret }}\<newline>'' \<and>
   dict_marker (filter (\<lambda>c. c \<noteq> CHR '' '') ''    password: {{ secret }}\<newline>'') \<and>
   (\<exists>msg. get_extended_error
       (\<lambda>f. Readable [''- hosts: all\<newline>'', ''  vars:\<newline>'', ''    password: {{ secret }}\<newline>''])
       ''site.yml'' 3 15 True = Inr msg \<and>
     YAML_COMMON_DICT_ERROR \<notin> set (notes_of msg) \<and>
     YAML_COMMON_UNQUOTED_COLON_ERROR \<notin> set (notes_of msg) \<and>
     notes_of msg = [YAML_COMMON_UNQUOTED_VARIABLE_ERROR])"
proof -
  have r: "get_error_lines_from_file
     (\<lambda>f. Readable [''- hosts: all\<newline>'', ''  vars:\<newline>'', ''    password: {{ secret }}\<newline>''])
     ''site.yml'' (3 - 1) = Inr (''    password: {{ secret }}\<newline>'', ''  vars:\<newline>'')"
    by code_simp
  have u: "unquoted_variable ''    password: {{ secret }}\<newline>''"
    by code_simp
  have d: "dict_marker (filter (\<lambda>c. c \<noteq> CHR '' '') ''    password: {{ secret }}\<newline>'')"
    by code_simp
  have s: "\<not> re_search shorthand ''  vars:\<newline>''"
    by code_simp
  from unquoted_variable_first_in_chain [OF r u, of 15 True] r u d s
  show ?thesis by simp
qed

text \<open>
  C9. For a request with line and column at least 1, the positional header of the
  output is its first piece and its only header, and the line and the column it prints
  are at least 1 on every path, the shorthand path with its rewritten header included.
\<close>

theorem header_numbers_positive:
  assumes "1 \<le> line_number" and "1 \<le> col_number"
    and "get_extended_error fs src_file line_number col_number show_content = Inr msg"
  shows "\<exists>l c rest. msg = YAML_POSITION_DETAILS src_file l c # rest \<and>
           positions_of rest = [] \<and> 1 \<le> l \<and> 1 \<le> c"
proof (cases "get_extended_error_try fs src_file line_number col_number show_content")
  case (Pair error_message exc)
  from try_header [OF assms(1,2) Pair] obtain l c rest where
    h: "error_message = YAML_POSITION_DETAILS src_file l c # rest" and
    r: "positions_of rest = []" and lc: "1 \<le> l" "1 \<le> c"
    by blast
  from assms(3) Pair obtain tail where
    m: "msg = error_message @ tail" and t: "positions_of tail = []"
    by (auto simp: get_extended_error_def split: option.splits if_splits)
  from m h have "msg = YAML_POSITION_DETAILS src_file l c # (rest @ tail)"
    by simp
  moreover from r t have "positions_of (rest @ tail) = []"
    by (simp add: positions_of_append)
  ultimately show ?thesis
    using lc by blast
qed

theorem header_numbers_positive_witness:
  "(1::int) \<le> 2 \<and> (1::int) \<le> 7 \<and>
   get_extended_error (\<lambda>f. Readable [''  copy: src=a dest=b\<newline>'', ''    mode: 0644\<newline>''])
     ''tasks.yml'' 2 7 True =
     Inr [YAML_POSITION_DETAILS ''tasks.yml'' 1 12,
          Str ''\<newline>The offending line appears to be:\<newline>\<newline>  copy: src=a dest=b\<newline>           ^ here\<newline>\<newline>'',
          Const YAML_AND_SHORTHAND_ERROR] \<and>
   (\<exists>l c rest.
      [YAML_POSITION_DETAILS ''tasks.yml'' 1 12,
       Str ''\<newline>The offending line appears to be:\<newline>\<newline>  copy: src=a dest=b\<newline>           ^ here\<newline>\<newline>'',
       Const YAML_AND_SHORTHAND_ERROR] = YAML_POSITION_DETAILS ''tasks.yml'' l c # rest \<and>
      positions_of rest = [] \<and> 1 \<le> l \<and> 1 \<le> c)"
proof -
  have e: "get_extended_error (\<lambda>f. Readable [''  copy: src=a dest=b\<newline>'', ''    mode: 0644\<newline>''])
     ''tasks.yml'' 2 7 True =
     Inr [YAML_POSITION_DETAILS ''tasks.yml'' 1 12,
          Str ''\<newline>The offending line appears to be:\<newline>\<newline>  copy: src=a dest=b\<newline>           ^ here\<newline>\<newline>'',
          Const YAML_AND_SHORTHAND_ERROR]"
    by code_simp
  have l: "(1::int) \<le> 2" and c: "(1::int) \<le> 7"
    by simp_all
  from header_numbers_positive [OF l c e] e l c show ?thesis
    by blast
qed

end
